theory Spec2Isabelle
  imports Main "HOL-Library.AList" "HOL-Library.Multiset" "HOL-Library.Char_ord"
    "HOL-Library.List_Lexorder"
begin

unbundle bit_operations_syntax

section \<open>The vSphere cloud account resource of the vRA provider\<close>

text \<open>
  A shallow embedding of \<^verbatim>\<open>vra/resource_cloud_account_vsphere.go\<close>: the resource
  data the four lifecycle functions work on, with the sets of the plugin SDK that four
  of its keys hold, the remote API client they call, and the functions themselves, each
  returning the diagnostics, the resource data as it has been mutated, and the requests
  sent to the remote API in order.
\<close>

subsection \<open>Sets of the plugin SDK\<close>

text \<open>
  The keys \<^verbatim>\<open>regions\<close>, \<^verbatim>\<open>associated_cloud_account_ids\<close>, \<^verbatim>\<open>region_ids\<close> (lines 39-45,
  56-62, 90-96) and \<^verbatim>\<open>tags\<close> (read as a set on lines 110 and 227) have the type
  \<^verbatim>\<open>schema.TypeSet\<close>. A \<^verbatim>\<open>schema.Set\<close> is a hash function \<^verbatim>\<open>F\<close> and a map from the
  hash code of an item, a decimal string, to the item: adding an item whose code is
  already there changes nothing, and \<^verbatim>\<open>List()\<close> gives the items in the order of their
  codes, compared as strings. So a set holds a value once, whatever was declared, and
  lists its values in an order that the declaration does not influence.

  The set is kept as its hash function and its items in listing order. \<open>canon\<close> takes
  the items added, in order, to that listing: the first item of each code, sorted by
  code.
\<close>

fun firstByCode :: "('a \<Rightarrow> string) \<Rightarrow> 'a list \<Rightarrow> 'a list \<Rightarrow> 'a list" where
  "firstByCode f acc [] = acc"
| "firstByCode f acc (x # xs) =
     firstByCode f (if f x \<in> f ` set acc then acc else acc @ [x]) xs"

definition canon :: "('a \<Rightarrow> string) \<Rightarrow> 'a list \<Rightarrow> 'a list" where
  "canon f xs = sort_key f (firstByCode f [] xs)"

datatype 'a schema_Set = SchemaSet (setF: "'a \<Rightarrow> string") (setItems: "'a list")

definition NewSet :: "('a \<Rightarrow> string) \<Rightarrow> 'a list \<Rightarrow> 'a schema_Set" where
  "NewSet f items = SchemaSet f (canon f items)"

definition SetList :: "'a schema_Set \<Rightarrow> 'a list" where
  "SetList s = canon (setF s) (setItems s)"

text \<open>
  The hash function of a set of strings with no \<^verbatim>\<open>Set\<close> function of its own, as the
  three string sets of the schema are: the CRC-32 checksum (IEEE) of the string followed
  by a semicolon, in decimal. The checksum is computed on naturals below \<open>2 ^ 32\<close>: a
  step halves the value, so nothing leaves that range.
\<close>

definition crcStep :: "nat \<Rightarrow> nat" where
  "crcStep c = (if odd c then (c div 2) XOR 3988292384 else c div 2)"

definition crcByte :: "nat \<Rightarrow> char \<Rightarrow> nat" where
  "crcByte c b =
     crcStep (crcStep (crcStep (crcStep (crcStep (crcStep (crcStep (crcStep
       (c XOR of_char b))))))))"

definition ChecksumIEEE :: "string \<Rightarrow> nat" where
  "ChecksumIEEE s = foldl crcByte 4294967295 s XOR 4294967295"

function Itoa :: "nat \<Rightarrow> string" where
  "Itoa n =
     (if n < 10 then [''0123456789'' ! n]
      else Itoa (n div 10) @ [''0123456789'' ! (n mod 10)])"
  by pat_completeness auto
termination
  by (relation "measure id") auto

declare Itoa.simps [simp del]

definition HashSchemaString :: "string \<Rightarrow> string" where
  "HashSchemaString v = Itoa (ChecksumIEEE (v @ '';''))"

subsection \<open>Resource data\<close>

text \<open>
  \<^verbatim>\<open>schema.ResourceData\<close> restricted to the schema of the resource (lines 24-101):
  one field per schema key, with the HOL type of the schema type, and the resource id.
  The set-typed keys are sets of the SDK, read with \<open>SetList\<close> where the source calls
  \<^verbatim>\<open>.List()\<close> and written with \<open>NewSet\<close> where it calls \<^verbatim>\<open>d.Set\<close>. A tag is a key and a
  value, a link value a relation and a target path; the type of \<^verbatim>\<open>links\<close> is fixed by
  \<^verbatim>\<open>linksSchema()\<close>, which is not in this file, and the value is kept as
  \<^verbatim>\<open>flattenLinks\<close> gives it.
\<close>

type_synonym tag_value = "string \<times> string"
type_synonym link_value = "string \<times> string"

record ResourceData =
  Id :: string
  hostname :: string
  name :: string
  password :: string
  regions :: "string schema_Set"
  username :: string
  accept_self_signed_cert :: bool
  associated_cloud_account_ids :: "string schema_Set"
  dcid :: string
  description :: string
  tags :: "tag_value schema_Set"
  created_at :: string
  custom_properties :: "(string \<times> string) list"
  links :: "link_value list"
  org_id :: string
  owner :: string
  region_ids :: "string schema_Set"
  updated_at :: string

definition SetId :: "string \<Rightarrow> ResourceData \<Rightarrow> ResourceData" where
  "SetId v d = d\<lparr>Id := v\<rparr>"

text \<open>
  A record is absent (not yet created, or deleted) exactly when its id is empty, and
  present otherwise.
\<close>

datatype lifecycle = Absent | Present

definition state_of :: "ResourceData \<Rightarrow> lifecycle" where
  "state_of d = (if Id d = [] then Absent else Present)"

subsection \<open>The models of the remote API\<close>

datatype Tag = Tag (Key: string) (Value: string)

text \<open>
  A link of a response in the normalized shape the specification gives it: the
  relation type and the target path.
\<close>

record link =
  rel :: string
  target :: string

text \<open>\<^verbatim>\<open>models.CloudAccountVsphere\<close>: the fields the source reads. \<^verbatim>\<open>ID\<close> is a pointer.\<close>

record CloudAccountVsphere =
  ID :: "string option"
  CreatedAt :: string
  CustomProperties :: "(string \<times> string) list"
  Dcid :: string
  Description :: string
  EnabledRegionIds :: "string list"
  HostName :: string
  Links :: "link list"
  Name :: string
  OrgID :: string
  Owner :: string
  Tags :: "Tag list"
  UpdatedAt :: string
  Username :: string

text \<open>\<^verbatim>\<open>models.CloudAccountVsphereSpecification\<close>, the body of a create request.\<close>

record CloudAccountVsphereSpecification =
  Spec_AcceptSelfSignedCertificate :: bool
  Spec_AssociatedCloudAccountIds :: "string list"
  Spec_CreateDefaultZones :: bool
  Spec_Dcid :: string
  Spec_Description :: string
  Spec_HostName :: string
  Spec_Name :: string
  Spec_Password :: string
  Spec_RegionIds :: "string list"
  Spec_Tags :: "Tag list"
  Spec_Username :: string

text \<open>\<^verbatim>\<open>models.UpdateCloudAccountVsphereSpecification\<close>, the body of an update request.\<close>

record UpdateCloudAccountVsphereSpecification =
  Upd_CreateDefaultZones :: bool
  Upd_Description :: string
  Upd_RegionIds :: "string list"
  Upd_Tags :: "Tag list"

subsection \<open>Errors and diagnostics\<close>

text \<open>
  The Go \<^verbatim>\<open>error\<close> values of the file: \<^verbatim>\<open>errors.New\<close> with its message, the
  not-found error of the get request that Read switches on, any other error of the
  client, and the error of the region normalizer. The last one is the error of an
  import that found nothing under the id it was given (section 7 of the specification:
  not found on Import is a failure).
\<close>

datatype error =
  ErrorsNew string
  | GetVSphereCloudAccountNotFound
  | ApiError string
  | MalformedLinkError
  | ImportNotFound string

text \<open>
  \<^verbatim>\<open>diag.Diagnostics\<close>: \<^verbatim>\<open>nil\<close>, \<^verbatim>\<open>diag.FromErr\<close>, \<^verbatim>\<open>diag.Errorf\<close> with its
  message. A nil pointer dereference does not return; it is the fourth outcome.
\<close>

datatype diagnostics =
  Nil
  | FromErr error
  | Errorf string
  | Panic

subsection \<open>The API client\<close>

text \<open>
  The client is outside the repository: each of its four requests is a function from
  the request to an error or a payload. Every lifecycle function sends each request at
  most once, so a function per request covers every behaviour of the remote side
  within one operation.
\<close>

record Client =
  CreateVSphereCloudAccount :: "CloudAccountVsphereSpecification \<Rightarrow> error + CloudAccountVsphere"
  GetVSphereCloudAccount :: "string \<Rightarrow> error + CloudAccountVsphere"
  UpdateVSphereCloudAccount ::
    "string \<Rightarrow> UpdateCloudAccountVsphereSpecification \<Rightarrow> error + CloudAccountVsphere"
  DeleteVSphereCloudAccount :: "string \<Rightarrow> error + unit"

datatype timeout = DefaultTimeOut | IncreasedTimeOut

text \<open>The requests an operation has sent, in order.\<close>

datatype call =
  CreateCall timeout CloudAccountVsphereSpecification
  | GetCall string
  | UpdateCall string UpdateCloudAccountVsphereSpecification
  | DeleteCall string

type_synonym result = "diagnostics \<times> ResourceData \<times> call list"

definition diags :: "result \<Rightarrow> diagnostics" where
  "diags r = fst r"

definition data :: "result \<Rightarrow> ResourceData" where
  "data r = fst (snd r)"

definition calls :: "result \<Rightarrow> call list" where
  "calls r = snd (snd r)"

subsection \<open>Helpers of the repository that are not in this file\<close>

text \<open>
  The field-mapping helpers are defined elsewhere in the repository and the
  specification leaves them out of scope, so the lifecycle functions take them as
  parameters. The three flatten helpers return an untyped value that \<^verbatim>\<open>d.Set\<close>
  accepts or rejects against the schema: \<open>Some v\<close> is a value it stores, \<open>None\<close> a value
  it rejects with an error (which the source checks for links and tags, and drops for
  the associated account ids). \<open>regionLinks\<close> selects, in response order, the links of
  a response that stand for its enabled regions, and \<open>linkIdentifier\<close> parses the region
  identifier out of such a link (\<open>None\<close>: it cannot be parsed). \<open>tagsHash\<close> is the hash
  function of the set of tags: \<^verbatim>\<open>tagsSchema()\<close>, which fixes it, is not in this file.
\<close>

record helpers =
  expandStringList :: "string list \<Rightarrow> string list"
  expandTags :: "tag_value list \<Rightarrow> Tag list"
  flattenTags :: "Tag list \<Rightarrow> tag_value list option"
  flattenLinks :: "link list \<Rightarrow> link_value list option"
  flattenAssociatedCloudAccountIds :: "link list \<Rightarrow> string list option"
  regionLinks :: "link list \<Rightarrow> link list"
  linkIdentifier :: "link \<Rightarrow> string option"
  tagsHash :: "tag_value \<Rightarrow> string"

text \<open>
  Modelled from the spec: \<^verbatim>\<open>compareUnique\<close> is not in this file. Section 4.1:
  given a sequence of strings, success if no value repeats, failure otherwise.
\<close>

fun compareUnique :: "string list \<Rightarrow> bool" where
  "compareUnique [] = True"
| "compareUnique (x # xs) = (x \<notin> set xs \<and> compareUnique xs)"

subsection \<open>The region order normalizer\<close>

text \<open>
  Modelled from the spec: \<^verbatim>\<open>flattenAndNormalizeCloudAccountVsphereRegionIds\<close> is not
  in this file. Section 4.2: extract each region identifier from its link reference,
  failing with \<open>MalformedLinkError\<close> on a link that cannot be parsed; build a lookup from
  identifier to link; walk the declared order, emitting the identifiers found in the
  lookup and removing them; append the identifiers that remain in the lookup, in the
  order of the remote response.

  The lookup is an association list in insertion order, so that the remaining
  identifiers come out in the order of the response; inserting an identifier that is
  already there replaces its link.
\<close>

fun extractIdentifiers ::
  "(link \<Rightarrow> string option) \<Rightarrow> link list \<Rightarrow> error + (string \<times> link) list" where
  "extractIdentifiers f [] = Inr []"
| "extractIdentifiers f (l # ls) =
     (case f l of
        None \<Rightarrow> Inl MalformedLinkError
      | Some i \<Rightarrow>
          (case extractIdentifiers f ls of
             Inl e \<Rightarrow> Inl e
           | Inr ps \<Rightarrow> Inr ((i, l) # ps)))"

fun buildLookup :: "(string \<times> link) list \<Rightarrow> (string \<times> link) list \<Rightarrow> (string \<times> link) list" where
  "buildLookup lk [] = lk"
| "buildLookup lk ((i, l) # ps) = buildLookup (AList.update i l lk) ps"

fun walkDeclared :: "string list \<Rightarrow> (string \<times> link) list \<Rightarrow> string list" where
  "walkDeclared [] lk = map fst lk"
| "walkDeclared (r # rs) lk =
     (case map_of lk r of
        Some l \<Rightarrow> r # walkDeclared rs (AList.delete r lk)
      | None \<Rightarrow> walkDeclared rs lk)"

text \<open>
  Modelled from the spec: the normalizer of section 4.2 as a function of the link parser,
  the declared order and the links of the response; the repository's own function is
  not in this file.
\<close>

definition RegionOrderNormalizer ::
  "(link \<Rightarrow> string option) \<Rightarrow> string list \<Rightarrow> link list \<Rightarrow> error + string list" where
  "RegionOrderNormalizer f declaredOrder remoteLinks =
     (case extractIdentifiers f remoteLinks of
        Inl e \<Rightarrow> Inl e
      | Inr ps \<Rightarrow> Inr (walkDeclared declaredOrder (buildLookup [] ps)))"

text \<open>
  Modelled from the spec: the function Create and Read call (lines 148 and 197), which
  is not in this file, is the normalizer applied to the declared order it is given and
  to the region links of the account it is given.
\<close>

definition flattenAndNormalizeCloudAccountVsphereRegionIds ::
  "helpers \<Rightarrow> string list \<Rightarrow> CloudAccountVsphere \<Rightarrow> error + string list" where
  "flattenAndNormalizeCloudAccountVsphereRegionIds h regions' cloudAccount =
     RegionOrderNormalizer (linkIdentifier h) regions' (regionLinks h (Links cloudAccount))"

subsection \<open>Read\<close>

text \<open>
  Lines 162-208. A not-found error of the get request clears the id and is no error;
  any other error is returned with the data untouched. On a payload the fields are
  written in the order of the source, the set-typed ones as the set of the values
  given, and an error return keeps the writes made before it.
\<close>

definition resourceCloudAccountVsphereRead :: "helpers \<Rightarrow> Client \<Rightarrow> ResourceData \<Rightarrow> result" where
  "resourceCloudAccountVsphereRead h m d =
     (let id' = Id d in
      case GetVSphereCloudAccount m id' of
        Inl err \<Rightarrow>
          (case err of
             GetVSphereCloudAccountNotFound \<Rightarrow> (Nil, SetId [] d, [GetCall id'])
           | _ \<Rightarrow> (FromErr err, d, [GetCall id']))
      | Inr vsphereAccount \<Rightarrow>
          (let regions' = EnabledRegionIds vsphereAccount;
               d1 = (case flattenAssociatedCloudAccountIds h (Links vsphereAccount) of
                       None \<Rightarrow> d
                     | Some v \<Rightarrow>
                         d\<lparr>associated_cloud_account_ids := NewSet HashSchemaString v\<rparr>);
               d2 = d1\<lparr>created_at := CreatedAt vsphereAccount,
                       custom_properties := CustomProperties vsphereAccount,
                       dcid := Dcid vsphereAccount,
                       description := Description vsphereAccount,
                       hostname := HostName vsphereAccount,
                       name := Name vsphereAccount,
                       org_id := OrgID vsphereAccount,
                       owner := Owner vsphereAccount,
                       regions := NewSet HashSchemaString regions',
                       updated_at := UpdatedAt vsphereAccount,
                       username := Username vsphereAccount\<rparr>
           in case flattenLinks h (Links vsphereAccount) of
                None \<Rightarrow>
                  (Errorf ''error setting cloud_account_vsphere links'', d2, [GetCall id'])
              | Some lv \<Rightarrow>
                  (let d3 = d2\<lparr>links := lv\<rparr>
                   in case flattenAndNormalizeCloudAccountVsphereRegionIds h regions' vsphereAccount of
                        Inl e \<Rightarrow> (FromErr e, d3, [GetCall id'])
                      | Inr regionsIds \<Rightarrow>
                          (let d4 = d3\<lparr>region_ids := NewSet HashSchemaString regionsIds\<rparr>
                           in case flattenTags h (Tags vsphereAccount) of
                                None \<Rightarrow>
                                  (Errorf ''Error setting cloud account tags'', d4, [GetCall id'])
                              | Some tv \<Rightarrow>
                                  (Nil, d4\<lparr>tags := NewSet (tagsHash h) tv\<rparr>,
                                   [GetCall id'])))))"

subsection \<open>Create\<close>

text \<open>
  Lines 105-160. \<^verbatim>\<open>d.GetOk\<close> reports a set-typed key as set when the set is not
  empty; only then is its listing checked for duplicates and expanded. The request is sent
  after both checks. \<^verbatim>\<open>*createResp.Payload.ID\<close> dereferences a pointer.
\<close>

definition createBody :: "helpers \<Rightarrow> ResourceData \<Rightarrow> CloudAccountVsphereSpecification" where
  "createBody h d =
     \<lparr>Spec_AcceptSelfSignedCertificate = accept_self_signed_cert d,
      Spec_AssociatedCloudAccountIds =
        (if SetList (associated_cloud_account_ids d) \<noteq> []
         then expandStringList h (SetList (associated_cloud_account_ids d)) else []),
      Spec_CreateDefaultZones = False,
      Spec_Dcid = dcid d,
      Spec_Description = description d,
      Spec_HostName = hostname d,
      Spec_Name = name d,
      Spec_Password = password d,
      Spec_RegionIds =
        (if SetList (regions d) \<noteq> [] then expandStringList h (SetList (regions d)) else []),
      Spec_Tags = expandTags h (SetList (tags d)),
      Spec_Username = username d\<rparr>"

definition resourceCloudAccountVsphereCreate :: "helpers \<Rightarrow> Client \<Rightarrow> ResourceData \<Rightarrow> result" where
  "resourceCloudAccountVsphereCreate h m d =
     (let tags' = expandTags h (SetList (tags d)) in
      if SetList (regions d) \<noteq> [] \<and> \<not> compareUnique (SetList (regions d))
      then (FromErr (ErrorsNew ''specified regions are not unique''), d, [])
      else
        (let regions' =
               (if SetList (regions d) \<noteq> []
                then expandStringList h (SetList (regions d)) else []) in
         if SetList (associated_cloud_account_ids d) \<noteq> []
            \<and> \<not> compareUnique (SetList (associated_cloud_account_ids d))
         then (FromErr (ErrorsNew ''specified associated cloud account ids are not unique''),
               d, [])
         else
           (let body = createBody h d;
                sent = [CreateCall IncreasedTimeOut body]
            in case CreateVSphereCloudAccount m body of
                 Inl err \<Rightarrow> (FromErr err, d, sent)
               | Inr payload \<Rightarrow>
                   (case flattenAndNormalizeCloudAccountVsphereRegionIds h regions' payload of
                      Inl e \<Rightarrow> (FromErr e, d, sent)
                    | Inr regionsIds \<Rightarrow>
                        (let d1 = d\<lparr>region_ids := NewSet HashSchemaString regionsIds\<rparr>
                         in case flattenTags h tags' of
                              None \<Rightarrow> (Errorf ''Error setting cloud account tags'', d1, sent)
                            | Some tv \<Rightarrow>
                                (let d2 = d1\<lparr>tags := NewSet (tagsHash h) tv\<rparr>
                                 in case ID payload of
                                      None \<Rightarrow> (Panic, d2, sent)
                                    | Some i \<Rightarrow>
                                        (let r = resourceCloudAccountVsphereRead h m (SetId i d2)
                                         in (diags r, data r, sent @ calls r))))))))"

subsection \<open>Update\<close>

text \<open>Lines 210-234.\<close>

definition updateBody :: "helpers \<Rightarrow> ResourceData \<Rightarrow> UpdateCloudAccountVsphereSpecification" where
  "updateBody h d =
     \<lparr>Upd_CreateDefaultZones = False,
      Upd_Description = description d,
      Upd_RegionIds =
        (if SetList (regions d) \<noteq> [] then expandStringList h (SetList (regions d)) else []),
      Upd_Tags = expandTags h (SetList (tags d))\<rparr>"

definition resourceCloudAccountVsphereUpdate :: "helpers \<Rightarrow> Client \<Rightarrow> ResourceData \<Rightarrow> result" where
  "resourceCloudAccountVsphereUpdate h m d =
     (let id' = Id d in
      if SetList (regions d) \<noteq> [] \<and> \<not> compareUnique (SetList (regions d))
      then (FromErr (ErrorsNew ''specified regions are not unique''), d, [])
      else
        (let body = updateBody h d;
             sent = [UpdateCall id' body]
         in case UpdateVSphereCloudAccount m id' body of
              Inl err \<Rightarrow> (FromErr err, d, sent)
            | Inr payload \<Rightarrow>
                (let r = resourceCloudAccountVsphereRead h m d
                 in (diags r, data r, sent @ calls r))))"

subsection \<open>Delete\<close>

text \<open>Lines 236-248.\<close>

definition resourceCloudAccountVsphereDelete :: "helpers \<Rightarrow> Client \<Rightarrow> ResourceData \<Rightarrow> result" where
  "resourceCloudAccountVsphereDelete h m d =
     (let id' = Id d in
      case DeleteVSphereCloudAccount m id' of
        Inl err \<Rightarrow> (FromErr err, d, [DeleteCall id'])
      | Inr u \<Rightarrow> (Nil, SetId [] d, [DeleteCall id']))"

subsection \<open>Import\<close>

text \<open>
  Lines 20-22 register \<^verbatim>\<open>schema.ImportStatePassthroughContext\<close> of the plugin SDK as
  the importer: it returns the resource data it is given, holding nothing but the id to
  import, and no error.
\<close>

definition ImportStatePassthroughContext :: "ResourceData \<Rightarrow> ResourceData list \<times> error option" where
  "ImportStatePassthroughContext d = ([d], None)"

text \<open>
  Modelled from the spec: the import operation is run by the host and is not in this
  file. Section 4.3: set the id directly, then delegate to Read to populate everything
  else; if Read reports not-found, import itself fails. Read reports not-found by
  returning no error and an empty id (lines 169-171).
\<close>

definition Import :: "helpers \<Rightarrow> Client \<Rightarrow> ResourceData \<Rightarrow> string \<Rightarrow> result" where
  "Import h m d i =
     (case ImportStatePassthroughContext (SetId i d) of
        (d' # ds, None) \<Rightarrow>
          (let r = resourceCloudAccountVsphereRead h m d'
           in if diags r = Nil \<and> Id (data r) = []
              then (FromErr (ImportNotFound i), data r, calls r)
              else r)
      | (ds, Some e) \<Rightarrow> (FromErr e, SetId i d, [])
      | ([], None) \<Rightarrow> (Nil, SetId i d, []))"

subsection \<open>Observations on requests and records\<close>

text \<open>
  Whether a request asks the remote API to create default zones: the flag of the body of
  a create or an update request; a get or a delete request has no body.
\<close>

definition asksDefaultZones :: "call \<Rightarrow> bool" where
  "asksDefaultZones c =
     (case c of
        CreateCall t body \<Rightarrow> Spec_CreateDefaultZones body
      | UpdateCall i body \<Rightarrow> Upd_CreateDefaultZones body
      | GetCall i \<Rightarrow> False
      | DeleteCall i \<Rightarrow> False)"

text \<open>
  The arguments of the schema (lines 25-71: required and optional) are the fields the
  user declares. \<open>userDeclaredUnchanged d d'\<close>: all of them are in \<open>d'\<close> as in \<open>d\<close>.
\<close>

definition userDeclaredUnchanged :: "ResourceData \<Rightarrow> ResourceData \<Rightarrow> bool" where
  "userDeclaredUnchanged d d' =
     (hostname d' = hostname d \<and> name d' = name d \<and> password d' = password d
      \<and> regions d' = regions d \<and> username d' = username d
      \<and> accept_self_signed_cert d' = accept_self_signed_cert d
      \<and> associated_cloud_account_ids d' = associated_cloud_account_ids d
      \<and> dcid d' = dcid d \<and> description d' = description d \<and> tags d' = tags d)"

subsection \<open>The walk on the identifiers alone\<close>

text \<open>
  The output of \<open>walkDeclared\<close> depends on the identifiers of the lookup only. This is
  the same walk on the list of identifiers, used to state and prove its properties.
\<close>

fun walkKeys :: "string list \<Rightarrow> string list \<Rightarrow> string list" where
  "walkKeys [] ks = ks"
| "walkKeys (r # rs) ks = (if r \<in> set ks then r # walkKeys rs (removeAll r ks) else walkKeys rs ks)"

subsection \<open>A concrete remote and configuration\<close>

text \<open>
  Field-mapping helpers, responses and a configuration to run the functions on: a region
  link has the relation \<open>regions\<close> and the target path \<open>/regions/\<close> followed by the
  identifier. \<open>remoteHolding a\<close> is a remote side that holds the one account \<open>a\<close>;
  \<open>remoteEmpty\<close> holds none.
\<close>

definition regionLink :: "string \<Rightarrow> link" where
  "regionLink i = \<lparr>rel = ''regions'', target = ''/regions/'' @ i\<rparr>"

definition exampleHelpers :: helpers where
  "exampleHelpers =
     \<lparr>expandStringList = (\<lambda>xs. xs),
      expandTags = map (\<lambda>(k, v). Tag k v),
      flattenTags = (\<lambda>ts. Some (map (\<lambda>t. (Key t, Value t)) ts)),
      flattenLinks = (\<lambda>ls. Some (map (\<lambda>l. (rel l, target l)) ls)),
      flattenAssociatedCloudAccountIds =
        (\<lambda>ls. Some (map target (filter (\<lambda>l. rel l = ''associated-cloud-accounts'') ls))),
      regionLinks = filter (\<lambda>l. rel l = ''regions''),
      linkIdentifier =
        (\<lambda>l. if take 9 (target l) = ''/regions/'' then Some (drop 9 (target l)) else None),
      tagsHash = (\<lambda>(k, v). k @ '':'' @ v)\<rparr>"

definition exampleAccount :: "string list \<Rightarrow> link list \<Rightarrow> CloudAccountVsphere" where
  "exampleAccount enabled ls =
     \<lparr>ID = Some ''acct-123'', CreatedAt = ''t0'', CustomProperties = [], Dcid = ''dc'',
      Description = ''remote'', EnabledRegionIds = enabled, HostName = ''vc.remote'',
      Links = ls, Name = ''acct'', OrgID = ''org'', Owner = ''admin'', Tags = [],
      UpdatedAt = ''t1'', Username = ''svc''\<rparr>"

definition remoteHolding :: "CloudAccountVsphere \<Rightarrow> Client" where
  "remoteHolding a =
     \<lparr>CreateVSphereCloudAccount = (\<lambda>body. Inr a),
      GetVSphereCloudAccount =
        (\<lambda>i. if Some i = ID a then Inr a else Inl GetVSphereCloudAccountNotFound),
      UpdateVSphereCloudAccount =
        (\<lambda>i body. if Some i = ID a then Inr a else Inl (ApiError ''404'')),
      DeleteVSphereCloudAccount =
        (\<lambda>i. if Some i = ID a then Inr () else Inl (ApiError ''404''))\<rparr>"

definition remoteEmpty :: Client where
  "remoteEmpty =
     \<lparr>CreateVSphereCloudAccount = (\<lambda>body. Inl (ApiError ''503'')),
      GetVSphereCloudAccount = (\<lambda>i. Inl GetVSphereCloudAccountNotFound),
      UpdateVSphereCloudAccount = (\<lambda>i body. Inl (ApiError ''404'')),
      DeleteVSphereCloudAccount = (\<lambda>i. Inl (ApiError ''404''))\<rparr>"

definition exampleConfig :: ResourceData where
  "exampleConfig =
     \<lparr>Id = [], hostname = ''vc.local'', name = ''acct'', password = ''secret'',
      regions = NewSet HashSchemaString [''r2'', ''r1''], username = ''svc'',
      accept_self_signed_cert = True,
      associated_cloud_account_ids = NewSet HashSchemaString [], dcid = ''dc'',
      description = ''declared'', tags = NewSet (tagsHash exampleHelpers) [],
      created_at = [], custom_properties = [], links = [], org_id = [],
      owner = [], region_ids = NewSet HashSchemaString [], updated_at = []\<rparr>"

definition emptyRecord :: ResourceData where
  "emptyRecord =
     \<lparr>Id = [], hostname = [], name = [], password = [],
      regions = NewSet HashSchemaString [], username = [],
      accept_self_signed_cert = False,
      associated_cloud_account_ids = NewSet HashSchemaString [], dcid = [],
      description = [], tags = NewSet (tagsHash exampleHelpers) [], created_at = [],
      custom_properties = [], links = [], org_id = [], owner = [],
      region_ids = NewSet HashSchemaString [], updated_at = []\<rparr>"

definition presentRecord :: ResourceData where
  "presentRecord = exampleConfig\<lparr>Id := ''acct-123''\<rparr>"

section \<open>Properties\<close>

subsection \<open>Uniqueness check\<close>

lemma compareUnique_distinct: "compareUnique xs = distinct xs"
  by (induction xs) auto

subsection \<open>Sets of the plugin SDK\<close>

lemma firstByCode_codes_distinct:
  "distinct (map f acc) \<Longrightarrow> distinct (map f (firstByCode f acc xs))"
  by (induction xs arbitrary: acc) auto

lemma firstByCode_subset: "set (firstByCode f acc xs) \<subseteq> set acc \<union> set xs"
proof (induction xs arbitrary: acc)
  case Nil
  show ?case by simp
next
  case (Cons a xs)
  have "set (firstByCode f (if f a \<in> f ` set acc then acc else acc @ [a]) xs)
          \<subseteq> set (if f a \<in> f ` set acc then acc else acc @ [a]) \<union> set xs"
    by (rule Cons.IH)
  then show ?case by (auto split: if_splits)
qed

lemma firstByCode_nonempty: "acc \<noteq> [] \<Longrightarrow> firstByCode f acc xs \<noteq> []"
  by (induction xs arbitrary: acc) auto

lemma firstByCode_fresh:
  "distinct (map f (acc @ xs)) \<Longrightarrow> firstByCode f acc xs = acc @ xs"
  by (induction xs arbitrary: acc) auto

lemma firstByCode_skip:
  "f x \<in> f ` (set acc \<union> set ys) \<Longrightarrow>
   firstByCode f acc (ys @ x # zs) = firstByCode f acc (ys @ zs)"
proof (induction ys arbitrary: acc)
  case Nil
  then show ?case by simp
next
  case (Cons y ys)
  have "f x \<in> f ` (set (if f y \<in> f ` set acc then acc else acc @ [y]) \<union> set ys)"
    using Cons.prems by auto
  from Cons.IH[OF this] show ?case by simp
qed

lemma canon_codes_distinct: "distinct (map f (canon f xs))"
proof -
  have "distinct (map f (firstByCode f [] xs))"
    by (rule firstByCode_codes_distinct) simp
  moreover have "mset (map f (canon f xs)) = mset (map f (firstByCode f [] xs))"
    by (simp add: canon_def)
  ultimately show ?thesis by (metis mset_eq_imp_distinct_iff)
qed

lemma distinct_canon: "distinct (canon f xs)"
  using canon_codes_distinct[of f xs] by (rule distinct_map[THEN iffD1, THEN conjunct1])

lemma sorted_canon: "sorted (map f (canon f xs))"
  by (simp add: canon_def)

lemma set_canon_subset: "set (canon f xs) \<subseteq> set xs"
  using firstByCode_subset[of f "[]" xs] by (simp add: canon_def)

lemma canon_Nil [simp]: "canon f [] = []"
  by (simp add: canon_def)

lemma canon_eq_Nil [simp]: "canon f xs = [] \<longleftrightarrow> xs = []"
proof (cases xs)
  case Nil
  then show ?thesis by simp
next
  case (Cons x xs')
  then have "firstByCode f [] xs \<noteq> []"
    using firstByCode_nonempty[of "[x]" f xs'] by simp
  then have "canon f xs \<noteq> []"
    by (metis canon_def length_sort list.size(3) length_0_conv)
  with Cons show ?thesis by simp
qed

lemma canon_idem: "canon f (canon f xs) = canon f xs"
proof -
  have "firstByCode f [] (canon f xs) = canon f xs"
    using firstByCode_fresh[of f "[]" "canon f xs"] canon_codes_distinct[of f xs] by simp
  then show ?thesis
    using sorted_canon[of f xs] by (simp add: canon_def[of f "canon f xs"] sort_key_id_if_sorted)
qed

lemma canon_repeat:
  "canon f (xs @ [x] @ ys @ [x] @ zs) = canon f (xs @ [x] @ ys @ zs)"
proof -
  have "f x \<in> f ` (set [] \<union> set (xs @ [x] @ ys))" by simp
  from firstByCode_skip[OF this, of zs]
  show ?thesis by (simp add: canon_def)
qed

lemma SetList_NewSet [simp]: "SetList (NewSet f xs) = canon f xs"
  by (simp add: SetList_def NewSet_def canon_idem)

lemma NewSet_repeat:
  "NewSet f (xs @ [x] @ ys @ [x] @ zs) = NewSet f (xs @ [x] @ ys @ zs)"
  by (simp only: NewSet_def canon_repeat)

lemma distinct_SetList: "distinct (SetList s)"
  by (simp add: SetList_def distinct_canon)

lemma compareUnique_SetList: "compareUnique (SetList s)"
  by (simp add: compareUnique_distinct distinct_SetList)

subsection \<open>Hash codes of the identifiers used below\<close>

lemmas hash_defs = HashSchemaString_def ChecksumIEEE_def crcByte_def crcStep_def Itoa.simps

lemma hash_r1: "HashSchemaString ''r1'' = ''3747777466''"
  by (simp add: hash_defs)

lemma hash_r2: "HashSchemaString ''r2'' = ''4098873465''"
  by (simp add: hash_defs)

lemma hash_us_east: "HashSchemaString ''us-east'' = ''2575791943''"
  by (simp add: hash_defs)

lemma canon_r2_r1: "canon HashSchemaString [''r2'', ''r1''] = [''r1'', ''r2'']"
  by (simp add: canon_def hash_r1 hash_r2)

lemma canon_r1_r2: "canon HashSchemaString [''r1'', ''r2''] = [''r1'', ''r2'']"
  by (simp add: canon_def hash_r1 hash_r2)

lemma canon_r1_r1: "canon HashSchemaString [''r1'', ''r1''] = [''r1'']"
  by (simp add: canon_def)

lemma canon_us_east: "canon HashSchemaString [''us-east'', ''us-east''] = [''us-east'']"
  by (simp add: canon_def)

lemma NewSet_r2_r1: "NewSet HashSchemaString [''r2'', ''r1''] = NewSet HashSchemaString [''r1'', ''r2'']"
  by (simp add: NewSet_def canon_r2_r1 canon_r1_r2)

subsection \<open>The lookup and the walk\<close>

lemma keys_buildLookup_distinct:
  "distinct (map fst lk) \<Longrightarrow> distinct (map fst (buildLookup lk ps))"
  by (induction lk ps rule: buildLookup.induct) (auto simp: AList.distinct_update)

lemma keys_buildLookup_set:
  "set (map fst (buildLookup lk ps)) = set (map fst lk) \<union> set (map fst ps)"
  by (induction lk ps rule: buildLookup.induct) (auto simp: AList.update_keys)

lemma keys_buildLookup_fresh:
  "distinct (map fst lk @ map fst ps) \<Longrightarrow> map fst (buildLookup lk ps) = map fst lk @ map fst ps"
  by (induction lk ps rule: buildLookup.induct) (auto simp: AList.update_keys)

lemma walkDeclared_keys: "walkDeclared rs lk = walkKeys rs (map fst lk)"
proof (induction rs arbitrary: lk)
  case Nil
  show ?case by simp
next
  case (Cons r rs)
  show ?case
  proof (cases "map_of lk r")
    case None
    then have "r \<notin> set (map fst lk)" by (simp add: map_of_eq_None_iff)
    with None Cons show ?thesis by simp
  next
    case (Some l)
    then have "r \<in> set (map fst lk)" by (metis map_of_eq_None_iff option.distinct(1) set_map)
    with Some Cons show ?thesis by (simp add: AList.delete_keys)
  qed
qed

lemma set_walkKeys: "set (walkKeys rs ks) = set ks"
  by (induction rs ks rule: walkKeys.induct) auto

lemma distinct_walkKeys: "distinct ks \<Longrightarrow> distinct (walkKeys rs ks)"
  by (induction rs ks rule: walkKeys.induct) (auto simp: set_walkKeys distinct_removeAll)

lemma mset_walkKeys: "distinct ks \<Longrightarrow> mset (walkKeys rs ks) = mset ks"
proof (induction rs ks rule: walkKeys.induct)
  case (1 ks)
  show ?case by simp
next
  case (2 r rs ks)
  show ?case
  proof (cases "r \<in> set ks")
    case True
    with 2 have "mset (walkKeys rs (removeAll r ks)) = mset (removeAll r ks)"
      by (simp add: distinct_removeAll)
    moreover from True 2 have "add_mset r (mset (removeAll r ks)) = mset ks"
      by (simp add: distinct_remove1_removeAll[symmetric])
    ultimately show ?thesis using True by simp
  next
    case False
    with 2 show ?thesis by simp
  qed
qed

lemma walkKeys_filter:
  "distinct rs \<Longrightarrow>
   walkKeys rs ks = filter (\<lambda>r. r \<in> set ks) rs @ filter (\<lambda>k. k \<notin> set rs) ks"
proof (induction rs ks rule: walkKeys.induct)
  case (1 ks)
  show ?case by simp
next
  case (2 r rs ks)
  have a: "filter (\<lambda>x. x \<in> set (removeAll r ks)) rs = filter (\<lambda>x. x \<in> set ks) rs"
    using 2(3) by (intro filter_cong) auto
  have b: "filter (\<lambda>k. k \<notin> set rs) (removeAll r ks) = filter (\<lambda>k. k \<notin> set (r # rs)) ks"
    by (induction ks) auto
  have c: "r \<notin> set ks \<Longrightarrow> filter (\<lambda>k. k \<notin> set rs) ks = filter (\<lambda>k. k \<notin> set (r # rs)) ks"
    by (intro filter_cong) auto
  show ?case using 2 a b c by (cases "r \<in> set ks") auto
qed

lemma walkKeys_idem: "walkKeys rs (walkKeys rs ks) = walkKeys rs ks"
proof (induction rs ks rule: walkKeys.induct)
  case (1 ks)
  show ?case by simp
next
  case (2 r rs ks)
  show ?case
  proof (cases "r \<in> set ks")
    case True
    have "r \<notin> set (walkKeys rs (removeAll r ks))" by (simp add: set_walkKeys)
    then have "removeAll r (walkKeys rs (removeAll r ks)) = walkKeys rs (removeAll r ks)"
      by simp
    with True 2 show ?thesis by simp
  next
    case False
    with 2 show ?thesis by (simp add: set_walkKeys)
  qed
qed

lemma walkKeys_perm:
  assumes "distinct rs" "set ks = set rs" "distinct ks"
  shows "walkKeys rs ks = rs"
proof -
  have "filter (\<lambda>r. r \<in> set ks) rs = rs" using assms(2) by simp
  moreover have "filter (\<lambda>k. k \<notin> set rs) ks = []" using assms(2) by simp
  ultimately show ?thesis using walkKeys_filter[OF assms(1)] by simp
qed

lemma extractIdentifiers_Some:
  "map f ls = map Some ids \<Longrightarrow> extractIdentifiers f ls = Inr (zip ids ls)"
proof (induction ls arbitrary: ids)
  case Nil
  then show ?case by simp
next
  case (Cons l ls)
  then obtain i ids' where ids: "ids = i # ids'" by (cases ids) auto
  with Cons.prems have "f l = Some i" "map f ls = map Some ids'" by auto
  with Cons.IH ids show ?case by simp
qed

lemma extractIdentifiers_Inr:
  "extractIdentifiers f ls = Inr ps \<Longrightarrow> map f ls = map Some (map fst ps) \<and> map snd ps = ls"
  by (induction ls arbitrary: ps) (auto split: option.splits sum.splits)

lemma keys_zip: "map f ls = map Some ids \<Longrightarrow> map fst (zip ids ls) = ids"
proof -
  assume "map f ls = map Some ids"
  then have "length ls = length ids" by (metis length_map)
  then show ?thesis by simp
qed

lemma keys_buildLookup_empty:
  "distinct (map fst ps) \<Longrightarrow> map fst (buildLookup [] ps) = map fst ps"
  using keys_buildLookup_fresh[of "[]" ps] by simp

lemma normalizer_keys:
  assumes "map f ls = map Some ids" "distinct ids"
  shows "RegionOrderNormalizer f rs ls = Inr (walkKeys rs ids)"
proof -
  have k: "map fst (zip ids ls) = ids" using assms(1) by (rule keys_zip)
  then have "map fst (buildLookup [] (zip ids ls)) = ids"
    using assms(2) keys_buildLookup_empty[of "zip ids ls"] by simp
  then show ?thesis
    by (simp add: RegionOrderNormalizer_def extractIdentifiers_Some[OF assms(1)] walkDeclared_keys)
qed

lemma filter_singleton:
  assumes "distinct xs" "{x \<in> set xs. P x} = {a}"
  shows "filter P xs = [a]"
proof -
  have d: "distinct (filter P xs)" using assms(1) by simp
  have s: "set (filter P xs) = {a}" using assms(2) by auto
  from d s have "length (filter P xs) = 1"
    by (metis One_nat_def card.empty card_insert_disjoint distinct_card empty_iff finite.emptyI)
  with s show ?thesis
    by (cases "filter P xs") auto
qed

text \<open>
  The order invariance of the normalizer: for a declared order without duplicates and
  links that carry exactly the declared identifiers, in any permutation, the output is
  the declared order.
\<close>

lemma normalizer_permutation:
  assumes "distinct rs" "map f ls = map Some ids" "mset ids = mset rs"
  shows "RegionOrderNormalizer f rs ls = Inr rs"
proof -
  have d: "distinct ids" using assms(1,3) by (metis mset_eq_imp_distinct_iff)
  have s: "set ids = set rs" using assms(3) by (metis mset_eq_setD)
  show ?thesis using normalizer_keys[OF assms(2) d] walkKeys_perm[OF assms(1) s d] by simp
qed

subsection \<open>Unfolding the lifecycle functions\<close>

lemma result_simps:
  "diags (x, y, z) = x" "data (x, y, z) = y" "calls (x, y, z) = z"
  by (simp_all add: diags_def data_def calls_def)

lemma calls_Read: "calls (resourceCloudAccountVsphereRead h m d) = [GetCall (Id d)]"
  by (simp add: resourceCloudAccountVsphereRead_def calls_def Let_def
      split: sum.splits error.splits option.splits)

lemma Read_NotFound:
  "GetVSphereCloudAccount m (Id d) = Inl GetVSphereCloudAccountNotFound \<Longrightarrow>
   resourceCloudAccountVsphereRead h m d = (Nil, SetId [] d, [GetCall (Id d)])"
  by (simp add: resourceCloudAccountVsphereRead_def)

lemma Read_error:
  "GetVSphereCloudAccount m (Id d) = Inl e \<Longrightarrow> e \<noteq> GetVSphereCloudAccountNotFound \<Longrightarrow>
   resourceCloudAccountVsphereRead h m d = (FromErr e, d, [GetCall (Id d)])"
  by (cases e) (simp_all add: resourceCloudAccountVsphereRead_def)

lemma Read_payload:
  assumes "GetVSphereCloudAccount m (Id d) = Inr a"
    and "flattenLinks h (Links a) = Some lv"
    and "flattenAndNormalizeCloudAccountVsphereRegionIds h (EnabledRegionIds a) a = Inr ids"
    and "flattenTags h (Tags a) = Some tv"
  shows "resourceCloudAccountVsphereRead h m d =
           (Nil,
            d\<lparr>associated_cloud_account_ids :=
                 (case flattenAssociatedCloudAccountIds h (Links a) of
                    None \<Rightarrow> associated_cloud_account_ids d
                  | Some v \<Rightarrow> NewSet HashSchemaString v),
               created_at := CreatedAt a, custom_properties := CustomProperties a,
               dcid := Dcid a, description := Description a, hostname := HostName a,
               name := Name a, org_id := OrgID a, owner := Owner a,
               regions := NewSet HashSchemaString (EnabledRegionIds a),
               updated_at := UpdatedAt a, username := Username a, links := lv,
               region_ids := NewSet HashSchemaString ids, tags := NewSet (tagsHash h) tv\<rparr>,
            [GetCall (Id d)])"
proof (cases "flattenAssociatedCloudAccountIds h (Links a)")
  case None
  with assms show ?thesis by (simp add: resourceCloudAccountVsphereRead_def)
next
  case (Some v)
  with assms show ?thesis by (simp add: resourceCloudAccountVsphereRead_def)
qed

lemma Read_Nil_payload:
  assumes "GetVSphereCloudAccount m (Id d) = Inr a"
    and "diags (resourceCloudAccountVsphereRead h m d) = Nil"
  shows "\<exists>lv ids tv.
           flattenLinks h (Links a) = Some lv
         \<and> flattenAndNormalizeCloudAccountVsphereRegionIds h (EnabledRegionIds a) a = Inr ids
         \<and> flattenTags h (Tags a) = Some tv"
proof (cases "flattenLinks h (Links a)")
  case None
  with assms show ?thesis by (simp add: resourceCloudAccountVsphereRead_def diags_def)
next
  case lv: (Some lv)
  show ?thesis
  proof (cases "flattenAndNormalizeCloudAccountVsphereRegionIds h (EnabledRegionIds a) a")
    case (Inl e)
    with assms lv show ?thesis by (simp add: resourceCloudAccountVsphereRead_def diags_def)
  next
    case ids: (Inr ids)
    show ?thesis
    proof (cases "flattenTags h (Tags a)")
      case None
      with assms lv ids show ?thesis
        by (simp add: resourceCloudAccountVsphereRead_def diags_def)
    next
      case (Some tv)
      with lv ids show ?thesis by simp
    qed
  qed
qed

lemma Read_Nil_cases:
  assumes "diags (resourceCloudAccountVsphereRead h m d) = Nil"
  shows "GetVSphereCloudAccount m (Id d) = Inl GetVSphereCloudAccountNotFound
         \<or> (\<exists>a. GetVSphereCloudAccount m (Id d) = Inr a)"
proof (cases "GetVSphereCloudAccount m (Id d)")
  case (Inl e)
  with assms show ?thesis
    by (cases e) (simp_all add: resourceCloudAccountVsphereRead_def result_simps)
next
  case (Inr a)
  then show ?thesis by simp
qed

lemma Read_payload_keeps_Id:
  "GetVSphereCloudAccount m (Id d) = Inr a \<Longrightarrow>
   Id (data (resourceCloudAccountVsphereRead h m d)) = Id d"
  by (simp add: resourceCloudAccountVsphereRead_def result_simps Let_def
      split: option.splits sum.splits)

lemma Read_keeps_password:
  "password (data (resourceCloudAccountVsphereRead h m d)) = password d"
  by (simp add: resourceCloudAccountVsphereRead_def data_def Let_def SetId_def
      split: sum.splits error.splits option.splits)

lemma Read_keeps_accept:
  "accept_self_signed_cert (data (resourceCloudAccountVsphereRead h m d))
     = accept_self_signed_cert d"
  by (simp add: resourceCloudAccountVsphereRead_def data_def Let_def SetId_def
      split: sum.splits error.splits option.splits)

lemma Create_payload:
  assumes "CreateVSphereCloudAccount m (createBody h d) = Inr p"
    and "flattenAndNormalizeCloudAccountVsphereRegionIds h (Spec_RegionIds (createBody h d)) p
           = Inr ids0"
    and "flattenTags h (expandTags h (SetList (tags d))) = Some tv"
    and "ID p = Some i"
  shows "resourceCloudAccountVsphereCreate h m d =
           (diags (resourceCloudAccountVsphereRead h m
              (d\<lparr>region_ids := NewSet HashSchemaString ids0,
                 tags := NewSet (tagsHash h) tv, Id := i\<rparr>)),
            data (resourceCloudAccountVsphereRead h m
              (d\<lparr>region_ids := NewSet HashSchemaString ids0,
                 tags := NewSet (tagsHash h) tv, Id := i\<rparr>)),
            CreateCall IncreasedTimeOut (createBody h d)
              # calls (resourceCloudAccountVsphereRead h m
                  (d\<lparr>region_ids := NewSet HashSchemaString ids0,
                     tags := NewSet (tagsHash h) tv, Id := i\<rparr>)))"
proof -
  have r: "Spec_RegionIds (createBody h d)
             = (if SetList (regions d) \<noteq> [] then expandStringList h (SetList (regions d))
                else [])"
    by (simp add: createBody_def)
  show ?thesis
    using assms unfolding r
    by (simp add: resourceCloudAccountVsphereCreate_def compareUnique_SetList Let_def SetId_def)
qed

lemma Create_Nil:
  assumes "diags (resourceCloudAccountVsphereCreate h m d) = Nil"
    and "CreateVSphereCloudAccount m (createBody h d) = Inr p"
  shows "\<exists>ids0 tv i.
           flattenAndNormalizeCloudAccountVsphereRegionIds h (Spec_RegionIds (createBody h d)) p
             = Inr ids0
         \<and> flattenTags h (expandTags h (SetList (tags d))) = Some tv
         \<and> ID p = Some i"
proof -
  have r: "Spec_RegionIds (createBody h d)
             = (if SetList (regions d) \<noteq> [] then expandStringList h (SetList (regions d))
                else [])"
    by (simp add: createBody_def)
  obtain ids0 where c:
    "flattenAndNormalizeCloudAccountVsphereRegionIds h (Spec_RegionIds (createBody h d)) p
       = Inr ids0"
  proof (cases "flattenAndNormalizeCloudAccountVsphereRegionIds h
                  (Spec_RegionIds (createBody h d)) p")
    case (Inl e)
    with assms show ?thesis unfolding r
      by (simp add: resourceCloudAccountVsphereCreate_def compareUnique_SetList result_simps
          Let_def)
  next
    case (Inr ids0)
    then show ?thesis using that by simp
  qed
  obtain tv where t: "flattenTags h (expandTags h (SetList (tags d))) = Some tv"
  proof (cases "flattenTags h (expandTags h (SetList (tags d)))")
    case None
    with c assms show ?thesis unfolding r
      by (simp add: resourceCloudAccountVsphereCreate_def compareUnique_SetList result_simps
          Let_def)
  next
    case (Some tv)
    then show ?thesis using that by simp
  qed
  obtain i where i: "ID p = Some i"
  proof (cases "ID p")
    case None
    with c t assms show ?thesis unfolding r
      by (simp add: resourceCloudAccountVsphereCreate_def compareUnique_SetList result_simps
          Let_def)
  next
    case (Some i)
    then show ?thesis using that by simp
  qed
  from c t i show ?thesis by blast
qed

lemma calls_Create:
  "calls (resourceCloudAccountVsphereCreate h m d)
       = [CreateCall IncreasedTimeOut (createBody h d)]
   \<or> (\<exists>i. calls (resourceCloudAccountVsphereCreate h m d)
          = [CreateCall IncreasedTimeOut (createBody h d), GetCall i])"
  by (simp add: resourceCloudAccountVsphereCreate_def Let_def result_simps calls_Read
      compareUnique_SetList split: sum.splits option.splits)

lemma Update_unfold:
  "resourceCloudAccountVsphereUpdate h m d
     = (case UpdateVSphereCloudAccount m (Id d) (updateBody h d) of
          Inl err \<Rightarrow> (FromErr err, d, [UpdateCall (Id d) (updateBody h d)])
        | Inr p \<Rightarrow>
            (diags (resourceCloudAccountVsphereRead h m d),
             data (resourceCloudAccountVsphereRead h m d),
             UpdateCall (Id d) (updateBody h d)
               # calls (resourceCloudAccountVsphereRead h m d)))"
  by (simp add: resourceCloudAccountVsphereUpdate_def compareUnique_SetList Let_def
      split: sum.splits)

lemma calls_Update:
  "calls (resourceCloudAccountVsphereUpdate h m d) = [UpdateCall (Id d) (updateBody h d)]
   \<or> calls (resourceCloudAccountVsphereUpdate h m d)
       = [UpdateCall (Id d) (updateBody h d), GetCall (Id d)]"
  by (simp add: Update_unfold result_simps calls_Read split: sum.splits)

lemma Import_found:
  assumes "i \<noteq> []" "GetVSphereCloudAccount m i = Inr a"
  shows "Import h m d i = resourceCloudAccountVsphereRead h m (SetId i d)"
proof -
  have "Id (data (resourceCloudAccountVsphereRead h m (SetId i d))) = i"
    using Read_payload_keeps_Id[of m "SetId i d" a h] assms(2) by (simp add: SetId_def)
  with assms(1) show ?thesis
    by (simp add: Import_def ImportStatePassthroughContext_def Let_def)
qed

subsection \<open>Runs on the concrete remote\<close>

lemmas example_defs =
  exampleHelpers_def exampleAccount_def remoteHolding_def remoteEmpty_def exampleConfig_def
  presentRecord_def regionLink_def

lemmas operation_defs =
  resourceCloudAccountVsphereRead_def resourceCloudAccountVsphereCreate_def
  resourceCloudAccountVsphereUpdate_def resourceCloudAccountVsphereDelete_def
  flattenAndNormalizeCloudAccountVsphereRegionIds_def RegionOrderNormalizer_def
  createBody_def updateBody_def SetId_def result_simps Let_def

lemmas set_facts = SetList_NewSet canon_r2_r1 canon_r1_r2 canon_r1_r1 canon_us_east

lemma example_Create_reordered:
  "resourceCloudAccountVsphereCreate exampleHelpers
     (remoteHolding (exampleAccount [''r1'', ''r2''] [regionLink ''r1'', regionLink ''r2'']))
     exampleConfig
   = (Nil,
      exampleConfig\<lparr>Id := ''acct-123'', hostname := ''vc.remote'',
        regions := NewSet HashSchemaString [''r1'', ''r2''],
        description := ''remote'', created_at := ''t0'',
        links := [(''regions'', ''/regions/r1''), (''regions'', ''/regions/r2'')],
        org_id := ''org'', owner := ''admin'',
        region_ids := NewSet HashSchemaString [''r1'', ''r2''],
        updated_at := ''t1''\<rparr>,
      [CreateCall IncreasedTimeOut (createBody exampleHelpers exampleConfig),
       GetCall ''acct-123''])"
  by (simp add: operation_defs example_defs set_facts)


lemma example_Read:
  "resourceCloudAccountVsphereRead exampleHelpers
     (remoteHolding (exampleAccount [''r1'', ''r2''] [regionLink ''r1'', regionLink ''r2'']))
     presentRecord
   = (Nil,
      presentRecord\<lparr>hostname := ''vc.remote'',
        regions := NewSet HashSchemaString [''r1'', ''r2''],
        description := ''remote'', created_at := ''t0'',
        links := [(''regions'', ''/regions/r1''), (''regions'', ''/regions/r2'')],
        org_id := ''org'', owner := ''admin'',
        region_ids := NewSet HashSchemaString [''r1'', ''r2''],
        updated_at := ''t1''\<rparr>,
      [GetCall ''acct-123''])"
  by (simp add: operation_defs example_defs set_facts)

section \<open>The claims\<close>


text \<open>
  C2 (import of an id the remote does not have). When the get request for the id reports
  not found, the import fails with the import's not-found error, the id of the record
  is empty, so the record is absent, and one get request has been sent; the routine Read
  of the same record returns no error.
\<close>

theorem import_not_found:
  assumes "GetVSphereCloudAccount m i = Inl GetVSphereCloudAccountNotFound"
  shows "Import h m d i = (FromErr (ImportNotFound i), d\<lparr>Id := []\<rparr>, [GetCall i])
         \<and> state_of (data (Import h m d i)) = Absent
         \<and> resourceCloudAccountVsphereRead h m (SetId i d) = (Nil, d\<lparr>Id := []\<rparr>, [GetCall i])"
proof -
  have r: "resourceCloudAccountVsphereRead h m (SetId i d) = (Nil, d\<lparr>Id := []\<rparr>, [GetCall i])"
    using assms Read_NotFound[of m "SetId i d" h] by (simp add: SetId_def)
  then have "Import h m d i = (FromErr (ImportNotFound i), d\<lparr>Id := []\<rparr>, [GetCall i])"
    by (simp add: Import_def ImportStatePassthroughContext_def Let_def result_simps)
  with r show ?thesis by (simp add: result_simps state_of_def)
qed

theorem import_not_found_witness:
  "Import exampleHelpers remoteEmpty emptyRecord ''acct-123''
     = (FromErr (ImportNotFound ''acct-123''), emptyRecord, [GetCall ''acct-123''])
   \<and> state_of emptyRecord = Absent
   \<and> resourceCloudAccountVsphereRead exampleHelpers remoteEmpty (SetId ''acct-123'' emptyRecord)
       = (Nil, emptyRecord, [GetCall ''acct-123''])"
proof -
  have g: "GetVSphereCloudAccount remoteEmpty ''acct-123'' = Inl GetVSphereCloudAccountNotFound"
    by (simp add: remoteEmpty_def)
  have e: "emptyRecord\<lparr>Id := []\<rparr> = emptyRecord" by (simp add: emptyRecord_def)
  have a: "state_of emptyRecord = Absent" by (simp add: emptyRecord_def state_of_def)
  show ?thesis using a import_not_found[OF g, of exampleHelpers emptyRecord] unfolding e by simp
qed

text \<open>
  C3 (Read on not found, as the code has it). For a present record whose get request
  reports not found, Read clears the id, which makes the record absent, returns no
  error, and leaves every other field of the resource data as it was.
\<close>

theorem read_not_found:
  assumes "state_of d = Present"
    and "GetVSphereCloudAccount m (Id d) = Inl GetVSphereCloudAccountNotFound"
  shows "resourceCloudAccountVsphereRead h m d = (Nil, d\<lparr>Id := []\<rparr>, [GetCall (Id d)])
         \<and> state_of (data (resourceCloudAccountVsphereRead h m d)) = Absent"
  using assms(2)
  by (simp add: resourceCloudAccountVsphereRead_def data_def state_of_def SetId_def)

theorem read_not_found_witness:
  "state_of presentRecord = Present
   \<and> resourceCloudAccountVsphereRead exampleHelpers remoteEmpty presentRecord
       = (Nil, exampleConfig, [GetCall ''acct-123''])"
proof -
  have p: "state_of presentRecord = Present"
    by (simp add: state_of_def presentRecord_def)
  have g: "GetVSphereCloudAccount remoteEmpty (Id presentRecord) = Inl GetVSphereCloudAccountNotFound"
    by (simp add: remoteEmpty_def)
  have e: "presentRecord\<lparr>Id := []\<rparr> = exampleConfig" "Id presentRecord = ''acct-123''"
    by (simp_all add: presentRecord_def exampleConfig_def)
  show ?thesis using p e read_not_found[OF p g, of exampleHelpers] by simp
qed

text \<open>
  After Read on a present record that the remote no longer has, the resource data is not
  the empty record: the host name is still the declared one.
\<close>

theorem read_not_found_counterexample:
  "state_of presentRecord = Present
   \<and> GetVSphereCloudAccount remoteEmpty (Id presentRecord) = Inl GetVSphereCloudAccountNotFound
   \<and> diags (resourceCloudAccountVsphereRead exampleHelpers remoteEmpty presentRecord) = Nil
   \<and> data (resourceCloudAccountVsphereRead exampleHelpers remoteEmpty presentRecord) \<noteq> emptyRecord
   \<and> hostname (data (resourceCloudAccountVsphereRead exampleHelpers remoteEmpty presentRecord))
       = ''vc.local''"
  by (simp add: resourceCloudAccountVsphereRead_def remoteEmpty_def presentRecord_def
      exampleConfig_def emptyRecord_def state_of_def diags_def data_def SetId_def)

text \<open>
  C4 (duplicates and Create, as the code has it). The regions and the associated cloud
  account ids reach Create as sets: the set built from a declaration that repeats a value
  is the set built without the repeat. The listings that Create checks never hold a
  repeated value, both checks pass, and for every configuration the first request Create
  sends is the create request, whose body carries the expansions of the two listings.
\<close>

theorem create_checks_set_listings:
  "NewSet f (xs @ [x] @ ys @ [x] @ zs) = NewSet f (xs @ [x] @ ys @ zs)
   \<and> distinct (SetList (regions d))
   \<and> distinct (SetList (associated_cloud_account_ids d))
   \<and> compareUnique (SetList (regions d))
   \<and> compareUnique (SetList (associated_cloud_account_ids d))
   \<and> (\<exists>rest. calls (resourceCloudAccountVsphereCreate h m d)
         = CreateCall IncreasedTimeOut (createBody h d) # rest)
   \<and> Spec_RegionIds (createBody h d)
       = (if SetList (regions d) = [] then []
          else expandStringList h (SetList (regions d)))
   \<and> Spec_AssociatedCloudAccountIds (createBody h d)
       = (if SetList (associated_cloud_account_ids d) = [] then []
          else expandStringList h (SetList (associated_cloud_account_ids d)))"
proof -
  have c: "\<exists>rest. calls (resourceCloudAccountVsphereCreate h m d)
         = CreateCall IncreasedTimeOut (createBody h d) # rest"
    using calls_Create[of h m d] by auto
  have r: "NewSet f (xs @ [x] @ ys @ [x] @ zs) = NewSet f (xs @ [x] @ ys @ zs)"
    by (rule NewSet_repeat)
  have s: "distinct (SetList (regions d))
   \<and> distinct (SetList (associated_cloud_account_ids d))
   \<and> compareUnique (SetList (regions d))
   \<and> compareUnique (SetList (associated_cloud_account_ids d))
   \<and> (\<exists>rest. calls (resourceCloudAccountVsphereCreate h m d)
         = CreateCall IncreasedTimeOut (createBody h d) # rest)
   \<and> Spec_RegionIds (createBody h d)
       = (if SetList (regions d) = [] then []
          else expandStringList h (SetList (regions d)))
   \<and> Spec_AssociatedCloudAccountIds (createBody h d)
       = (if SetList (associated_cloud_account_ids d) = [] then []
          else expandStringList h (SetList (associated_cloud_account_ids d)))"
    using c by (simp add: distinct_SetList compareUnique_SetList createBody_def)
  show ?thesis by (rule conjI[OF r s])
qed

theorem create_checks_set_listings_witness:
  "NewSet HashSchemaString [''us-east'', ''us-east''] = NewSet HashSchemaString [''us-east'']
   \<and> compareUnique (SetList (regions exampleConfig))
   \<and> calls (resourceCloudAccountVsphereCreate exampleHelpers remoteEmpty exampleConfig)
       = [CreateCall IncreasedTimeOut (createBody exampleHelpers exampleConfig)]
   \<and> Spec_RegionIds (createBody exampleHelpers exampleConfig) = [''r1'', ''r2'']"
proof -
  note t = create_checks_set_listings[of HashSchemaString "[]" "''us-east''" "[]" "[]" exampleConfig
      exampleHelpers remoteEmpty]
  have 1: "NewSet HashSchemaString [''us-east'', ''us-east''] = NewSet HashSchemaString [''us-east'']"
    using t[THEN conjunct1] by simp
  have 2: "compareUnique (SetList (regions exampleConfig))"
    by (rule t[THEN conjunct2, THEN conjunct2, THEN conjunct2, THEN conjunct1])
  have 3: "calls (resourceCloudAccountVsphereCreate exampleHelpers remoteEmpty exampleConfig)
       = [CreateCall IncreasedTimeOut (createBody exampleHelpers exampleConfig)]"
    by (simp add: operation_defs example_defs set_facts compareUnique_SetList)
  have 4: "Spec_RegionIds (createBody exampleHelpers exampleConfig) = [''r1'', ''r2'']"
    by (simp add: createBody_def example_defs set_facts)
  show ?thesis by (intro conjI) (rule 1, rule 2, rule 3, rule 4)
qed

text \<open>
  A configuration that declares the region \<open>us-east\<close> twice holds it once; Create
  returns no error and sends the create request, with that region once, and the get
  request.
\<close>

theorem create_duplicate_counterexample:
  "SetList (regions (exampleConfig\<lparr>regions := NewSet HashSchemaString [''us-east'', ''us-east'']\<rparr>))
     = [''us-east'']
   \<and> diags (resourceCloudAccountVsphereCreate exampleHelpers
        (remoteHolding (exampleAccount [''us-east''] [regionLink ''us-east'']))
        (exampleConfig\<lparr>regions := NewSet HashSchemaString [''us-east'', ''us-east'']\<rparr>)) = Nil
   \<and> calls (resourceCloudAccountVsphereCreate exampleHelpers
        (remoteHolding (exampleAccount [''us-east''] [regionLink ''us-east'']))
        (exampleConfig\<lparr>regions := NewSet HashSchemaString [''us-east'', ''us-east'']\<rparr>))
       = [CreateCall IncreasedTimeOut
            (createBody exampleHelpers
              (exampleConfig\<lparr>regions := NewSet HashSchemaString [''us-east'', ''us-east'']\<rparr>)),
          GetCall ''acct-123'']
   \<and> Spec_RegionIds (createBody exampleHelpers
         (exampleConfig\<lparr>regions := NewSet HashSchemaString [''us-east'', ''us-east'']\<rparr>))
       = [''us-east'']"
  by (simp add: operation_defs example_defs set_facts)

text \<open>
  C5 (completeness). The links of the response carry the identifiers \<open>ids\<close>, each once,
  and the declared order \<open>rs\<close> has no duplicates. The output is the declared identifiers
  that the response has, in declared order, followed by the identifiers of the response
  that are not declared, in the order of the response. It has the same multiset as
  \<open>ids\<close>, so nothing is dropped. When the response holds the declared regions and one
  more identifier \<open>rx\<close>, the output is the declared regions followed by \<open>rx\<close>.
\<close>

theorem normalizer_completeness:
  assumes "distinct rs" "map f ls = map Some ids" "distinct ids"
  shows "RegionOrderNormalizer f rs ls
           = Inr (filter (\<lambda>r. r \<in> set ids) rs @ filter (\<lambda>i. i \<notin> set rs) ids)
         \<and> mset (filter (\<lambda>r. r \<in> set ids) rs @ filter (\<lambda>i. i \<notin> set rs) ids) = mset ids
         \<and> (set ids = insert rx (set rs) \<and> rx \<notin> set rs \<longrightarrow>
              RegionOrderNormalizer f rs ls = Inr (rs @ [rx]))"
proof -
  have n: "RegionOrderNormalizer f rs ls = Inr (walkKeys rs ids)"
    using normalizer_keys[OF assms(2,3)] .
  have w: "walkKeys rs ids = filter (\<lambda>r. r \<in> set ids) rs @ filter (\<lambda>i. i \<notin> set rs) ids"
    using walkKeys_filter[OF assms(1)] .
  have m: "mset (walkKeys rs ids) = mset ids" using mset_walkKeys[OF assms(3)] .
  have x: "RegionOrderNormalizer f rs ls = Inr (rs @ [rx])"
    if h: "set ids = insert rx (set rs)" "rx \<notin> set rs"
  proof -
    have "filter (\<lambda>r. r \<in> set ids) rs = rs" using h(1) by simp
    moreover have "{i \<in> set ids. i \<notin> set rs} = {rx}" using h by auto
    then have "filter (\<lambda>i. i \<notin> set rs) ids = [rx]" using filter_singleton[OF assms(3)] by simp
    ultimately show ?thesis using n w by simp
  qed
  show ?thesis using n w m x by simp
qed

theorem normalizer_completeness_witness:
  "RegionOrderNormalizer (linkIdentifier exampleHelpers) [''r2'', ''r1'']
     [regionLink ''r1'', regionLink ''rx'', regionLink ''r2'']
   = Inr [''r2'', ''r1'', ''rx'']
   \<and> mset [''r2'', ''r1'', ''rx''] = mset [''r1'', ''rx'', ''r2'']"
proof -
  have a: "distinct [''r2'', ''r1'']" by simp
  have b: "map (linkIdentifier exampleHelpers)
             [regionLink ''r1'', regionLink ''rx'', regionLink ''r2'']
           = map Some [''r1'', ''rx'', ''r2'']"
    by (simp add: exampleHelpers_def regionLink_def)
  have c: "distinct [''r1'', ''rx'', ''r2'']" by simp
  show ?thesis using normalizer_completeness[OF a b c, of "''rx''"] by simp
qed

text \<open>
  C6 (what Read writes, as the code has it). Read never writes the password nor the
  self-signed certificate flag, whatever the remote answers. A Read that returns no
  error has either been told not found, and then it has cleared the id and written
  nothing else, or has received an account that the flatten helpers and the normalizer
  accept, and then it has kept the id and overwritten every other field from the
  response: the declared host name, name, user name, dcid and description with the
  values of the account, the regions with the set of its enabled region ids, the region
  ids with the set of the normalizer's output for those enabled region ids, the tags with
  the set of the flattened tags, the associated account ids with the set of the flattened
  ids when that value is accepted, and the computed fields and links with theirs.
\<close>

theorem read_frame:
  "password (data (resourceCloudAccountVsphereRead h m d)) = password d
   \<and> accept_self_signed_cert (data (resourceCloudAccountVsphereRead h m d))
       = accept_self_signed_cert d
   \<and> (diags (resourceCloudAccountVsphereRead h m d) = Nil \<longrightarrow>
        (GetVSphereCloudAccount m (Id d) = Inl GetVSphereCloudAccountNotFound
         \<and> data (resourceCloudAccountVsphereRead h m d) = d\<lparr>Id := []\<rparr>)
        \<or> (\<exists>a lv ids tv.
              GetVSphereCloudAccount m (Id d) = Inr a
            \<and> flattenLinks h (Links a) = Some lv
            \<and> flattenAndNormalizeCloudAccountVsphereRegionIds h (EnabledRegionIds a) a = Inr ids
            \<and> flattenTags h (Tags a) = Some tv
            \<and> data (resourceCloudAccountVsphereRead h m d) =
                d\<lparr>associated_cloud_account_ids :=
                     (case flattenAssociatedCloudAccountIds h (Links a) of
                        None \<Rightarrow> associated_cloud_account_ids d
                      | Some v \<Rightarrow> NewSet HashSchemaString v),
                   created_at := CreatedAt a, custom_properties := CustomProperties a,
                   dcid := Dcid a, description := Description a, hostname := HostName a,
                   name := Name a, org_id := OrgID a, owner := Owner a,
                   regions := NewSet HashSchemaString (EnabledRegionIds a),
                   updated_at := UpdatedAt a, username := Username a, links := lv,
                   region_ids := NewSet HashSchemaString ids,
                   tags := NewSet (tagsHash h) tv\<rparr>))"
proof (intro conjI impI)
  show "password (data (resourceCloudAccountVsphereRead h m d)) = password d"
    by (rule Read_keeps_password)
  show "accept_self_signed_cert (data (resourceCloudAccountVsphereRead h m d))
          = accept_self_signed_cert d"
    by (rule Read_keeps_accept)
next
  assume n: "diags (resourceCloudAccountVsphereRead h m d) = Nil"
  from Read_Nil_cases[OF n] show
    "(GetVSphereCloudAccount m (Id d) = Inl GetVSphereCloudAccountNotFound
         \<and> data (resourceCloudAccountVsphereRead h m d) = d\<lparr>Id := []\<rparr>)
        \<or> (\<exists>a lv ids tv.
              GetVSphereCloudAccount m (Id d) = Inr a
            \<and> flattenLinks h (Links a) = Some lv
            \<and> flattenAndNormalizeCloudAccountVsphereRegionIds h (EnabledRegionIds a) a = Inr ids
            \<and> flattenTags h (Tags a) = Some tv
            \<and> data (resourceCloudAccountVsphereRead h m d) =
                d\<lparr>associated_cloud_account_ids :=
                     (case flattenAssociatedCloudAccountIds h (Links a) of
                        None \<Rightarrow> associated_cloud_account_ids d
                      | Some v \<Rightarrow> NewSet HashSchemaString v),
                   created_at := CreatedAt a, custom_properties := CustomProperties a,
                   dcid := Dcid a, description := Description a, hostname := HostName a,
                   name := Name a, org_id := OrgID a, owner := Owner a,
                   regions := NewSet HashSchemaString (EnabledRegionIds a),
                   updated_at := UpdatedAt a, username := Username a, links := lv,
                   region_ids := NewSet HashSchemaString ids,
                   tags := NewSet (tagsHash h) tv\<rparr>)"
  proof
    assume g: "GetVSphereCloudAccount m (Id d) = Inl GetVSphereCloudAccountNotFound"
    have "data (resourceCloudAccountVsphereRead h m d) = d\<lparr>Id := []\<rparr>"
      by (simp add: Read_NotFound[OF g] result_simps SetId_def)
    with g show ?thesis by blast
  next
    assume "\<exists>a. GetVSphereCloudAccount m (Id d) = Inr a"
    then obtain a where g: "GetVSphereCloudAccount m (Id d) = Inr a" by blast
    obtain lv ids tv where s:
      "flattenLinks h (Links a) = Some lv"
      "flattenAndNormalizeCloudAccountVsphereRegionIds h (EnabledRegionIds a) a = Inr ids"
      "flattenTags h (Tags a) = Some tv"
      using Read_Nil_payload[OF g n] by blast
    have "data (resourceCloudAccountVsphereRead h m d) =
                d\<lparr>associated_cloud_account_ids :=
                     (case flattenAssociatedCloudAccountIds h (Links a) of
                        None \<Rightarrow> associated_cloud_account_ids d
                      | Some v \<Rightarrow> NewSet HashSchemaString v),
                   created_at := CreatedAt a, custom_properties := CustomProperties a,
                   dcid := Dcid a, description := Description a, hostname := HostName a,
                   name := Name a, org_id := OrgID a, owner := Owner a,
                   regions := NewSet HashSchemaString (EnabledRegionIds a),
                   updated_at := UpdatedAt a, username := Username a, links := lv,
                   region_ids := NewSet HashSchemaString ids,
                   tags := NewSet (tagsHash h) tv\<rparr>"
      by (simp add: Read_payload[OF g s] result_simps)
    with g s show ?thesis by blast
  qed
qed

theorem read_frame_witness:
  "diags (resourceCloudAccountVsphereRead exampleHelpers
     (remoteHolding (exampleAccount [''r1'', ''r2''] [regionLink ''r1'', regionLink ''r2'']))
     presentRecord) = Nil
   \<and> password (data (resourceCloudAccountVsphereRead exampleHelpers
     (remoteHolding (exampleAccount [''r1'', ''r2''] [regionLink ''r1'', regionLink ''r2'']))
     presentRecord)) = ''secret''
   \<and> hostname (data (resourceCloudAccountVsphereRead exampleHelpers
     (remoteHolding (exampleAccount [''r1'', ''r2''] [regionLink ''r1'', regionLink ''r2'']))
     presentRecord)) = ''vc.remote''
   \<and> Id (data (resourceCloudAccountVsphereRead exampleHelpers
     (remoteHolding (exampleAccount [''r1'', ''r2''] [regionLink ''r1'', regionLink ''r2'']))
     presentRecord)) = ''acct-123''
   \<and> diags (resourceCloudAccountVsphereRead exampleHelpers remoteEmpty presentRecord) = Nil
   \<and> data (resourceCloudAccountVsphereRead exampleHelpers remoteEmpty presentRecord)
       = presentRecord\<lparr>Id := []\<rparr>"
proof -
  let ?m = "remoteHolding (exampleAccount [''r1'', ''r2''] [regionLink ''r1'', regionLink ''r2''])"
  let ?a = "exampleAccount [''r1'', ''r2''] [regionLink ''r1'', regionLink ''r2'']"
  have n: "diags (resourceCloudAccountVsphereRead exampleHelpers ?m presentRecord) = Nil"
    by (simp add: example_Read result_simps)
  have g: "GetVSphereCloudAccount ?m (Id presentRecord) = Inr ?a"
    by (simp add: example_defs)
  have n': "diags (resourceCloudAccountVsphereRead exampleHelpers remoteEmpty presentRecord) = Nil"
    by (simp add: resourceCloudAccountVsphereRead_def remoteEmpty_def result_simps)
  have g': "GetVSphereCloudAccount remoteEmpty (Id presentRecord)
              = Inl GetVSphereCloudAccountNotFound"
    by (simp add: remoteEmpty_def)
  note t = read_frame[of exampleHelpers ?m presentRecord]
  note t' = read_frame[of exampleHelpers remoteEmpty presentRecord]
  have p: "password (data (resourceCloudAccountVsphereRead exampleHelpers ?m presentRecord))
             = ''secret''"
    using t[THEN conjunct1] by (simp add: example_defs)
  from t[THEN conjunct2, THEN conjunct2, rule_format, OF n] g
  have hi: "hostname (data (resourceCloudAccountVsphereRead exampleHelpers ?m presentRecord))
             = HostName ?a
           \<and> Id (data (resourceCloudAccountVsphereRead exampleHelpers ?m presentRecord))
             = Id presentRecord"
    by auto
  from t'[THEN conjunct2, THEN conjunct2, rule_format, OF n'] g'
  have e: "data (resourceCloudAccountVsphereRead exampleHelpers remoteEmpty presentRecord)
       = presentRecord\<lparr>Id := []\<rparr>"
    by auto
  have v: "HostName ?a = ''vc.remote''" "Id presentRecord = ''acct-123''"
    by (simp_all add: example_defs)
  show ?thesis using n p hi n' e unfolding v by blast
qed

text \<open>
  A successful Read of a record declared with host name \<open>vc.local\<close> and description
  \<open>declared\<close> against a remote that answers \<open>vc.remote\<close> and \<open>remote\<close> changes declared
  fields.
\<close>

theorem read_frame_counterexample:
  "diags (resourceCloudAccountVsphereRead exampleHelpers
     (remoteHolding (exampleAccount [''r1'', ''r2''] [regionLink ''r1'', regionLink ''r2'']))
     presentRecord) = Nil
   \<and> \<not> userDeclaredUnchanged presentRecord
        (data (resourceCloudAccountVsphereRead exampleHelpers
          (remoteHolding (exampleAccount [''r1'', ''r2''] [regionLink ''r1'', regionLink ''r2'']))
          presentRecord))
   \<and> hostname presentRecord = ''vc.local''
   \<and> hostname (data (resourceCloudAccountVsphereRead exampleHelpers
        (remoteHolding (exampleAccount [''r1'', ''r2''] [regionLink ''r1'', regionLink ''r2'']))
        presentRecord)) = ''vc.remote''
   \<and> description presentRecord = ''declared''
   \<and> description (data (resourceCloudAccountVsphereRead exampleHelpers
        (remoteHolding (exampleAccount [''r1'', ''r2''] [regionLink ''r1'', regionLink ''r2'']))
        presentRecord)) = ''remote''"
  by (simp add: example_Read result_simps userDeclaredUnchanged_def)
    (simp add: example_defs)

text \<open>
  C7 (Delete is atomic on failure). For a present record, an error of the delete request
  is returned and the resource data is unchanged, so the record stays present; on success
  the id alone is cleared and the record is absent.
\<close>

theorem delete_atomic:
  assumes "state_of d = Present"
  shows "(\<forall>err. DeleteVSphereCloudAccount m (Id d) = Inl err \<longrightarrow>
            resourceCloudAccountVsphereDelete h m d = (FromErr err, d, [DeleteCall (Id d)])
            \<and> state_of (data (resourceCloudAccountVsphereDelete h m d)) = Present)
       \<and> (\<forall>u. DeleteVSphereCloudAccount m (Id d) = Inr u \<longrightarrow>
            resourceCloudAccountVsphereDelete h m d = (Nil, d\<lparr>Id := []\<rparr>, [DeleteCall (Id d)])
            \<and> state_of (data (resourceCloudAccountVsphereDelete h m d)) = Absent)"
  using assms
  by (simp add: resourceCloudAccountVsphereDelete_def data_def state_of_def SetId_def)

theorem delete_atomic_witness:
  "state_of presentRecord = Present
   \<and> resourceCloudAccountVsphereDelete exampleHelpers remoteEmpty presentRecord
       = (FromErr (ApiError ''404''), presentRecord, [DeleteCall ''acct-123''])
   \<and> resourceCloudAccountVsphereDelete exampleHelpers
         (remoteHolding (exampleAccount [] [])) presentRecord
       = (Nil, exampleConfig, [DeleteCall ''acct-123''])"
proof -
  have p: "state_of presentRecord = Present"
    by (simp add: state_of_def presentRecord_def)
  have i: "Id presentRecord = ''acct-123''" by (simp add: presentRecord_def)
  have f: "DeleteVSphereCloudAccount remoteEmpty (Id presentRecord) = Inl (ApiError ''404'')"
    by (simp add: remoteEmpty_def)
  have s: "DeleteVSphereCloudAccount (remoteHolding (exampleAccount [] [])) (Id presentRecord)
             = Inr ()"
    by (simp add: remoteHolding_def exampleAccount_def i)
  have e: "presentRecord\<lparr>Id := []\<rparr> = exampleConfig"
    by (simp add: presentRecord_def exampleConfig_def)
  show ?thesis
    using p f s e i delete_atomic[OF p, of remoteEmpty exampleHelpers]
      delete_atomic[OF p, of "remoteHolding (exampleAccount [] [])" exampleHelpers]
    by simp
qed

text \<open>
  C8 (idempotence). The output of the normalizer, turned back into links by any \<open>mk\<close>
  whose links parse to the identifier they were made from, and normalized again with
  the same declared order, is the same sequence.
\<close>

theorem normalizer_idempotent:
  assumes "RegionOrderNormalizer f rs ls = Inr out"
    and "\<And>i. i \<in> set out \<Longrightarrow> f (mk i) = Some i"
  shows "RegionOrderNormalizer f rs (map mk out) = Inr out"
proof -
  from assms(1) obtain ps where ps: "extractIdentifiers f ls = Inr ps"
    and out: "out = walkDeclared rs (buildLookup [] ps)"
    by (auto simp: RegionOrderNormalizer_def split: sum.splits)
  have dk: "distinct (map fst (buildLookup [] ps))"
    using keys_buildLookup_distinct[of "[]" ps] by simp
  have o: "out = walkKeys rs (map fst (buildLookup [] ps))"
    using out by (simp add: walkDeclared_keys)
  then have d: "distinct out" using dk by (simp add: distinct_walkKeys)
  have "map f (map mk out) = map Some out" using assms(2) by simp
  then have "RegionOrderNormalizer f rs (map mk out) = Inr (walkKeys rs out)"
    using d by (rule normalizer_keys)
  also have "walkKeys rs out = out" using o by (simp add: walkKeys_idem)
  finally show ?thesis .
qed

theorem normalizer_idempotent_witness:
  "RegionOrderNormalizer (linkIdentifier exampleHelpers) [''r2'', ''r1'']
     [regionLink ''r1'', regionLink ''rx'', regionLink ''r1'', regionLink ''r2'']
   = Inr [''r2'', ''r1'', ''rx'']
   \<and> RegionOrderNormalizer (linkIdentifier exampleHelpers) [''r2'', ''r1'']
       (map regionLink [''r2'', ''r1'', ''rx''])
     = Inr [''r2'', ''r1'', ''rx'']"
proof -
  have a: "RegionOrderNormalizer (linkIdentifier exampleHelpers) [''r2'', ''r1'']
             [regionLink ''r1'', regionLink ''rx'', regionLink ''r1'', regionLink ''r2'']
           = Inr [''r2'', ''r1'', ''rx'']"
    by (simp add: RegionOrderNormalizer_def exampleHelpers_def regionLink_def)
  have b: "linkIdentifier exampleHelpers (regionLink i) = Some i" for i
    by (simp add: exampleHelpers_def regionLink_def)
  show ?thesis using a normalizer_idempotent[OF a b] by simp
qed

text \<open>
  C9 (Update, as the code has it). The listing of the regions set that Update checks
  never holds a repeated value, so Update never stops at the check: its first request is
  the update of the record's id, with a body holding the declared description, the
  expansion of the regions listing, the expansion of the tags listing and the default
  zones flag unset; the body is the same for two records that agree on description,
  regions and tags. An error of the request is returned with the data unchanged. When
  the request succeeds the result is that of Read on the record, with the get request
  after the update request: if the get request returns an account that the flatten
  helpers and the normalizer accept, Update returns no error and the record holds the
  values of that account in every field but the id, the password and the self-signed
  certificate flag.
\<close>

theorem update_request:
  "distinct (SetList (regions d))
   \<and> (\<exists>rest. calls (resourceCloudAccountVsphereUpdate h m d) =
         UpdateCall (Id d)
           \<lparr>Upd_CreateDefaultZones = False,
            Upd_Description = description d,
            Upd_RegionIds =
              (if SetList (regions d) = [] then []
               else expandStringList h (SetList (regions d))),
            Upd_Tags = expandTags h (SetList (tags d))\<rparr> # rest)
   \<and> (\<forall>d'. description d' = description d \<and> regions d' = regions d \<and> tags d' = tags d
         \<longrightarrow> updateBody h d' = updateBody h d)
   \<and> (\<forall>err. UpdateVSphereCloudAccount m (Id d) (updateBody h d) = Inl err \<longrightarrow>
         resourceCloudAccountVsphereUpdate h m d
           = (FromErr err, d, [UpdateCall (Id d) (updateBody h d)]))
   \<and> (\<forall>p. UpdateVSphereCloudAccount m (Id d) (updateBody h d) = Inr p \<longrightarrow>
         resourceCloudAccountVsphereUpdate h m d
           = (diags (resourceCloudAccountVsphereRead h m d),
              data (resourceCloudAccountVsphereRead h m d),
              UpdateCall (Id d) (updateBody h d)
                # calls (resourceCloudAccountVsphereRead h m d)))
   \<and> (\<forall>p a lv ids tv.
         UpdateVSphereCloudAccount m (Id d) (updateBody h d) = Inr p
         \<and> GetVSphereCloudAccount m (Id d) = Inr a
         \<and> flattenLinks h (Links a) = Some lv
         \<and> flattenAndNormalizeCloudAccountVsphereRegionIds h (EnabledRegionIds a) a = Inr ids
         \<and> flattenTags h (Tags a) = Some tv \<longrightarrow>
         resourceCloudAccountVsphereUpdate h m d
           = (Nil,
              d\<lparr>associated_cloud_account_ids :=
                   (case flattenAssociatedCloudAccountIds h (Links a) of
                      None \<Rightarrow> associated_cloud_account_ids d
                    | Some v \<Rightarrow> NewSet HashSchemaString v),
                 created_at := CreatedAt a, custom_properties := CustomProperties a,
                 dcid := Dcid a, description := Description a, hostname := HostName a,
                 name := Name a, org_id := OrgID a, owner := Owner a,
                 regions := NewSet HashSchemaString (EnabledRegionIds a),
                 updated_at := UpdatedAt a, username := Username a, links := lv,
                 region_ids := NewSet HashSchemaString ids,
                 tags := NewSet (tagsHash h) tv\<rparr>,
              [UpdateCall (Id d) (updateBody h d), GetCall (Id d)]))"
proof (intro conjI allI impI)
  show "distinct (SetList (regions d))" by (rule distinct_SetList)
next
  have c: "updateBody h d =
             \<lparr>Upd_CreateDefaultZones = False,
              Upd_Description = description d,
              Upd_RegionIds =
                (if SetList (regions d) = [] then []
                 else expandStringList h (SetList (regions d))),
              Upd_Tags = expandTags h (SetList (tags d))\<rparr>"
    by (simp add: updateBody_def)
  have "\<exists>rest. calls (resourceCloudAccountVsphereUpdate h m d)
             = UpdateCall (Id d) (updateBody h d) # rest"
    using calls_Update[of h m d] by auto
  then show "\<exists>rest. calls (resourceCloudAccountVsphereUpdate h m d) =
         UpdateCall (Id d)
           \<lparr>Upd_CreateDefaultZones = False,
            Upd_Description = description d,
            Upd_RegionIds =
              (if SetList (regions d) = [] then []
               else expandStringList h (SetList (regions d))),
            Upd_Tags = expandTags h (SetList (tags d))\<rparr> # rest"
    unfolding c .
next
  fix d' :: ResourceData
  assume "description d' = description d \<and> regions d' = regions d \<and> tags d' = tags d"
  then show "updateBody h d' = updateBody h d" by (simp add: updateBody_def)
next
  fix err
  assume "UpdateVSphereCloudAccount m (Id d) (updateBody h d) = Inl err"
  then show "resourceCloudAccountVsphereUpdate h m d
           = (FromErr err, d, [UpdateCall (Id d) (updateBody h d)])"
    by (simp add: Update_unfold)
next
  fix p
  assume "UpdateVSphereCloudAccount m (Id d) (updateBody h d) = Inr p"
  then show "resourceCloudAccountVsphereUpdate h m d
           = (diags (resourceCloudAccountVsphereRead h m d),
              data (resourceCloudAccountVsphereRead h m d),
              UpdateCall (Id d) (updateBody h d)
                # calls (resourceCloudAccountVsphereRead h m d))"
    by (simp add: Update_unfold)
next
  fix p a lv ids tv
  assume a: "UpdateVSphereCloudAccount m (Id d) (updateBody h d) = Inr p
         \<and> GetVSphereCloudAccount m (Id d) = Inr a
         \<and> flattenLinks h (Links a) = Some lv
         \<and> flattenAndNormalizeCloudAccountVsphereRegionIds h (EnabledRegionIds a) a = Inr ids
         \<and> flattenTags h (Tags a) = Some tv"
  then have u: "UpdateVSphereCloudAccount m (Id d) (updateBody h d) = Inr p"
    and g: "GetVSphereCloudAccount m (Id d) = Inr a"
    and s: "flattenLinks h (Links a) = Some lv"
      "flattenAndNormalizeCloudAccountVsphereRegionIds h (EnabledRegionIds a) a = Inr ids"
      "flattenTags h (Tags a) = Some tv"
    by simp_all
  show "resourceCloudAccountVsphereUpdate h m d
           = (Nil,
              d\<lparr>associated_cloud_account_ids :=
                   (case flattenAssociatedCloudAccountIds h (Links a) of
                      None \<Rightarrow> associated_cloud_account_ids d
                    | Some v \<Rightarrow> NewSet HashSchemaString v),
                 created_at := CreatedAt a, custom_properties := CustomProperties a,
                 dcid := Dcid a, description := Description a, hostname := HostName a,
                 name := Name a, org_id := OrgID a, owner := Owner a,
                 regions := NewSet HashSchemaString (EnabledRegionIds a),
                 updated_at := UpdatedAt a, username := Username a, links := lv,
                 region_ids := NewSet HashSchemaString ids,
                 tags := NewSet (tagsHash h) tv\<rparr>,
              [UpdateCall (Id d) (updateBody h d), GetCall (Id d)])"
    by (simp add: Update_unfold u Read_payload[OF g s] result_simps)
qed

theorem update_request_witness:
  "resourceCloudAccountVsphereUpdate exampleHelpers remoteEmpty presentRecord
     = (FromErr (ApiError ''404''), presentRecord,
        [UpdateCall ''acct-123''
           \<lparr>Upd_CreateDefaultZones = False, Upd_Description = ''declared'',
            Upd_RegionIds = [''r1'', ''r2''], Upd_Tags = []\<rparr>])
   \<and> resourceCloudAccountVsphereUpdate exampleHelpers
       (remoteHolding (exampleAccount [''r1'', ''r2''] [regionLink ''r1'', regionLink ''r2'']))
       presentRecord
     = (Nil,
        presentRecord\<lparr>hostname := ''vc.remote'',
          regions := NewSet HashSchemaString [''r1'', ''r2''],
          description := ''remote'', created_at := ''t0'',
          links := [(''regions'', ''/regions/r1''), (''regions'', ''/regions/r2'')],
          org_id := ''org'', owner := ''admin'',
          region_ids := NewSet HashSchemaString [''r1'', ''r2''],
          updated_at := ''t1''\<rparr>,
        [UpdateCall ''acct-123''
           \<lparr>Upd_CreateDefaultZones = False, Upd_Description = ''declared'',
            Upd_RegionIds = [''r1'', ''r2''], Upd_Tags = []\<rparr>,
         GetCall ''acct-123''])
   \<and> updateBody exampleHelpers
       (presentRecord\<lparr>hostname := ''other'', password := ''changed''\<rparr>)
     = updateBody exampleHelpers presentRecord"
proof -
  let ?a = "exampleAccount [''r1'', ''r2''] [regionLink ''r1'', regionLink ''r2'']"
  note t1 = update_request[of presentRecord exampleHelpers remoteEmpty]
  note t2 = update_request[of presentRecord exampleHelpers "remoteHolding ?a"]
  have b: "updateBody exampleHelpers presentRecord
             = \<lparr>Upd_CreateDefaultZones = False, Upd_Description = ''declared'',
                Upd_RegionIds = [''r1'', ''r2''], Upd_Tags = []\<rparr>"
    by (simp add: updateBody_def example_defs set_facts)
  have i: "Id presentRecord = ''acct-123''" by (simp add: example_defs)
  have u1: "UpdateVSphereCloudAccount remoteEmpty (Id presentRecord)
              (updateBody exampleHelpers presentRecord) = Inl (ApiError ''404'')"
    by (simp add: example_defs)
  have u2: "UpdateVSphereCloudAccount (remoteHolding ?a) (Id presentRecord)
              (updateBody exampleHelpers presentRecord) = Inr ?a
            \<and> GetVSphereCloudAccount (remoteHolding ?a) (Id presentRecord) = Inr ?a
            \<and> flattenLinks exampleHelpers (Links ?a)
                = Some [(''regions'', ''/regions/r1''), (''regions'', ''/regions/r2'')]
            \<and> flattenAndNormalizeCloudAccountVsphereRegionIds exampleHelpers
                  (EnabledRegionIds ?a) ?a = Inr [''r1'', ''r2'']
            \<and> flattenTags exampleHelpers (Tags ?a) = Some []"
    by (simp add: example_defs flattenAndNormalizeCloudAccountVsphereRegionIds_def
        RegionOrderNormalizer_def)
  have 1: "resourceCloudAccountVsphereUpdate exampleHelpers remoteEmpty presentRecord
     = (FromErr (ApiError ''404''), presentRecord,
        [UpdateCall (Id presentRecord) (updateBody exampleHelpers presentRecord)])"
    by (rule t1[THEN conjunct2, THEN conjunct2, THEN conjunct2, THEN conjunct1,
          rule_format, OF u1])
  note 2 = t2[THEN conjunct2, THEN conjunct2, THEN conjunct2, THEN conjunct2, THEN conjunct2,
      rule_format, OF u2]
  have 3: "updateBody exampleHelpers
       (presentRecord\<lparr>hostname := ''other'', password := ''changed''\<rparr>)
     = updateBody exampleHelpers presentRecord"
    by (rule t1[THEN conjunct2, THEN conjunct2, THEN conjunct1, rule_format]) simp
  have e: "presentRecord\<lparr>associated_cloud_account_ids :=
                   (case flattenAssociatedCloudAccountIds exampleHelpers (Links ?a) of
                      None \<Rightarrow> associated_cloud_account_ids presentRecord
                    | Some v \<Rightarrow> NewSet HashSchemaString v),
                 created_at := CreatedAt ?a, custom_properties := CustomProperties ?a,
                 dcid := Dcid ?a, description := Description ?a, hostname := HostName ?a,
                 name := Name ?a, org_id := OrgID ?a, owner := Owner ?a,
                 regions := NewSet HashSchemaString (EnabledRegionIds ?a),
                 updated_at := UpdatedAt ?a, username := Username ?a,
                 links := [(''regions'', ''/regions/r1''), (''regions'', ''/regions/r2'')],
                 region_ids := NewSet HashSchemaString [''r1'', ''r2''],
                 tags := NewSet (tagsHash exampleHelpers) []\<rparr>
           = presentRecord\<lparr>hostname := ''vc.remote'',
          regions := NewSet HashSchemaString [''r1'', ''r2''],
          description := ''remote'', created_at := ''t0'',
          links := [(''regions'', ''/regions/r1''), (''regions'', ''/regions/r2'')],
          org_id := ''org'', owner := ''admin'',
          region_ids := NewSet HashSchemaString [''r1'', ''r2''],
          updated_at := ''t1''\<rparr>"
    by (simp add: example_defs)
  show ?thesis
    by (intro conjI) (rule 1[unfolded b i], rule 2[unfolded b i e], rule 3)
qed

text \<open>
  Update of a record whose configuration declares the region r1 twice: the set holds it
  once, the update request is sent with that region once, and Update returns no error.
\<close>

theorem update_duplicate_counterexample:
  "SetList (regions (presentRecord\<lparr>regions := NewSet HashSchemaString [''r1'', ''r1'']\<rparr>))
     = [''r1'']
   \<and> diags (resourceCloudAccountVsphereUpdate exampleHelpers
        (remoteHolding (exampleAccount [''r1''] [regionLink ''r1'']))
        (presentRecord\<lparr>regions := NewSet HashSchemaString [''r1'', ''r1'']\<rparr>)) = Nil
   \<and> calls (resourceCloudAccountVsphereUpdate exampleHelpers
        (remoteHolding (exampleAccount [''r1''] [regionLink ''r1'']))
        (presentRecord\<lparr>regions := NewSet HashSchemaString [''r1'', ''r1'']\<rparr>))
       = [UpdateCall ''acct-123''
            \<lparr>Upd_CreateDefaultZones = False, Upd_Description = ''declared'',
             Upd_RegionIds = [''r1''], Upd_Tags = []\<rparr>,
          GetCall ''acct-123'']"
  by (simp add: operation_defs example_defs set_facts)

text \<open>
  C10 (default zones are never asked for). No request sent by Create or by Update asks
  for default zones: the flag is false in the body of the create request and in the body
  of the update request, whatever the configuration.
\<close>

theorem never_asks_default_zones:
  "(\<forall>c \<in> set (calls (resourceCloudAccountVsphereCreate h m d)). \<not> asksDefaultZones c)
   \<and> (\<forall>c \<in> set (calls (resourceCloudAccountVsphereUpdate h m d)). \<not> asksDefaultZones c)
   \<and> \<not> Spec_CreateDefaultZones (createBody h d)
   \<and> \<not> Upd_CreateDefaultZones (updateBody h d)"
proof -
  have c: "\<not> asksDefaultZones (CreateCall t (createBody h d))" for t
    by (simp add: asksDefaultZones_def createBody_def)
  have u: "\<not> asksDefaultZones (UpdateCall i (updateBody h d))" for i
    by (simp add: asksDefaultZones_def updateBody_def)
  have g: "\<not> asksDefaultZones (GetCall i)" for i
    by (simp add: asksDefaultZones_def)
  have 1: "\<forall>c \<in> set (calls (resourceCloudAccountVsphereCreate h m d)). \<not> asksDefaultZones c"
    using calls_Create[of h m d] c g by auto
  have 2: "\<forall>c \<in> set (calls (resourceCloudAccountVsphereUpdate h m d)). \<not> asksDefaultZones c"
    using calls_Update[of h m d] u g by auto
  show ?thesis using 1 2 by (simp add: createBody_def updateBody_def)
qed

theorem never_asks_default_zones_witness:
  "calls (resourceCloudAccountVsphereCreate exampleHelpers
     (remoteHolding (exampleAccount [''r1'', ''r2''] [regionLink ''r1'', regionLink ''r2'']))
     exampleConfig)
   = [CreateCall IncreasedTimeOut (createBody exampleHelpers exampleConfig),
      GetCall ''acct-123'']
   \<and> \<not> asksDefaultZones (CreateCall IncreasedTimeOut (createBody exampleHelpers exampleConfig))
   \<and> \<not> asksDefaultZones (GetCall ''acct-123'')
   \<and> \<not> Upd_CreateDefaultZones (updateBody exampleHelpers exampleConfig)"
proof -
  let ?m = "remoteHolding (exampleAccount [''r1'', ''r2''] [regionLink ''r1'', regionLink ''r2''])"
  have c: "calls (resourceCloudAccountVsphereCreate exampleHelpers ?m exampleConfig)
   = [CreateCall IncreasedTimeOut (createBody exampleHelpers exampleConfig),
      GetCall ''acct-123'']"
    by (simp add: example_Create_reordered result_simps)
  show ?thesis
    using c never_asks_default_zones[of exampleHelpers ?m exampleConfig] by simp
qed

end
